theory Spec2Isabelle
  imports Complex_Main
begin

section \<open>Python values\<close>

text \<open>
  The client is dynamically typed: request bodies, query parameters and decoded payloads
  are arbitrary JSON-like Python values. A dict keeps its insertion order and has distinct
  keys, so it is an association list; lookups read the first binding of a key. A float is
  read as the real number it denotes: the client only tests floats for truth (zero is
  false) and passes them on.
\<close>

datatype pyval =
    PNone
  | PBool bool
  | PInt int
  | PFloat real
  | PStr string
  | PList "pyval list"
  | PDict "(string \<times> pyval) list"

datatype exn =
    RuntimeError string
  | KeyError string
  | AttributeError
  | TypeError
  | JSONDecodeError
  | RequestException

text \<open>Truth value of a Python object, as used by \<^verbatim>\<open>x or y\<close>.\<close>

fun truthy :: "pyval \<Rightarrow> bool" where
  "truthy PNone = False"
| "truthy (PBool b) = b"
| "truthy (PInt i) = (i \<noteq> 0)"
| "truthy (PFloat x) = (x \<noteq> 0)"
| "truthy (PStr s) = (s \<noteq> [])"
| "truthy (PList xs) = (xs \<noteq> [])"
| "truthy (PDict d) = (d \<noteq> [])"

definition py_or :: "pyval \<Rightarrow> pyval \<Rightarrow> pyval" where
  "py_or x y = (if truthy x then x else y)"

text \<open>\<^verbatim>\<open>d[k] = v\<close>: an existing key keeps its position, a new key goes last.\<close>

fun dict_set :: "(string \<times> pyval) list \<Rightarrow> string \<Rightarrow> pyval \<Rightarrow> (string \<times> pyval) list" where
  "dict_set [] k v = [(k, v)]"
| "dict_set (p # ps) k v = (if fst p = k then (k, v) # ps else p # dict_set ps k v)"

text \<open>A dict display \<^verbatim>\<open>{k1: v1, ..., **extra}\<close>: the items are stored left to right.\<close>

definition dict_display :: "(string \<times> pyval) list \<Rightarrow> (string \<times> pyval) list" where
  "dict_display items = foldl (\<lambda>d kv. dict_set d (fst kv) (snd kv)) [] items"

text \<open>\<^verbatim>\<open>x.get(k, default)\<close>: only a dict has the method.\<close>

fun py_get :: "pyval \<Rightarrow> string \<Rightarrow> pyval \<Rightarrow> exn + pyval" where
  "py_get (PDict d) k dflt = Inr (case map_of d k of None \<Rightarrow> dflt | Some v \<Rightarrow> v)"
| "py_get _ k dflt = Inl AttributeError"

text \<open>\<^verbatim>\<open>x[k]\<close> with a string key: a missing key of a dict raises KeyError.\<close>

fun py_getitem :: "pyval \<Rightarrow> string \<Rightarrow> exn + pyval" where
  "py_getitem (PDict d) k = (case map_of d k of None \<Rightarrow> Inl (KeyError k) | Some v \<Rightarrow> Inr v)"
| "py_getitem _ k = Inl TypeError"

text \<open>
  Iteration (\<^verbatim>\<open>for x in v\<close>, \<^verbatim>\<open>list(v)\<close>): a list yields its elements, a dict its
  keys, a string its characters; anything else is not iterable.
\<close>

fun py_iter :: "pyval \<Rightarrow> exn + pyval list" where
  "py_iter (PList xs) = Inr xs"
| "py_iter (PDict d) = Inr (map (\<lambda>kv. PStr (fst kv)) d)"
| "py_iter (PStr s) = Inr (map (\<lambda>c. PStr [c]) s)"
| "py_iter _ = Inl TypeError"

text \<open>Sequencing of computations that may raise.\<close>

fun ebind :: "exn + 'a \<Rightarrow> ('a \<Rightarrow> exn + 'b) \<Rightarrow> exn + 'b" where
  "ebind (Inl e) f = Inl e"
| "ebind (Inr x) f = f x"

text \<open>A list comprehension: the elements are evaluated in order, the first raise ends it.\<close>

fun comprehension :: "('a \<Rightarrow> exn + 'b) \<Rightarrow> 'a list \<Rightarrow> exn + 'b list" where
  "comprehension f [] = Inr []"
| "comprehension f (x # xs) =
     (case f x of
        Inl e \<Rightarrow> Inl e
      | Inr y \<Rightarrow> (case comprehension f xs of Inl e \<Rightarrow> Inl e | Inr ys \<Rightarrow> Inr (y # ys)))"

section \<open>Decimal rendering of integers\<close>

definition digit_char :: "nat \<Rightarrow> char" where
  "digit_char d = ''0123456789'' ! d"

fun str_nat :: "nat \<Rightarrow> string" where
  "str_nat n = (if n < 10 then [digit_char n] else str_nat (n div 10) @ [digit_char (n mod 10)])"

declare str_nat.simps [simp del]

definition str_int :: "int \<Rightarrow> string" where
  "str_int i = (if i < 0 then CHR ''-'' # str_nat (nat (- i)) else str_nat (nat i))"

text \<open>Reading a decimal numeral back, to show that the rendering loses nothing.\<close>

definition digit_val :: "char \<Rightarrow> nat" where
  "digit_val ch = of_char ch - 48"

definition nat_of_digits :: "string \<Rightarrow> nat" where
  "nat_of_digits s = foldl (\<lambda>acc ch. 10 * acc + digit_val ch) 0 s"

section \<open>HTTP transport\<close>

record http_request =
  rq_method :: string
  rq_url :: string
  rq_headers :: "(string \<times> pyval) list"
  rq_json :: pyval
  rq_params :: pyval
  rq_timeout :: nat

text \<open>
  A response as the client reads it: the status code, the body text, and what
  \<^verbatim>\<open>response.json()\<close> gives (\<open>None\<close> when the body is not JSON and the call raises).
\<close>

record http_response =
  status_code :: int
  resp_text :: string
  json_body :: "pyval option"

text \<open>
  The session object: how the other side answers a request (or the transport raises),
  and the requests issued through it so far.
\<close>

record http_session =
  transport :: "http_request \<Rightarrow> exn + http_response"
  sent :: "http_request list"

definition session_request :: "http_session \<Rightarrow> http_request \<Rightarrow> (exn + http_response) \<times> http_session" where
  "session_request s rq = (transport s rq, s\<lparr>sent := sent s @ [rq]\<rparr>)"

section \<open>The client\<close>

record client =
  base :: string
  api_key :: string
  org :: string
  project :: string
  subject :: string
  session :: http_session

definition rstrip_slash :: "string \<Rightarrow> string" where
  "rstrip_slash s = rev (dropWhile (\<lambda>c. c = CHR ''/'') (rev s))"

text \<open>
  The constructor. \<open>fresh\<close> stands for the session the HTTP library creates when the
  caller passes none.
\<close>

definition CapsuleMemoryClient ::
  "http_session \<Rightarrow> string \<Rightarrow> string \<Rightarrow> string \<Rightarrow> string \<Rightarrow> string \<Rightarrow> http_session option \<Rightarrow> client" where
  "CapsuleMemoryClient fresh base_url key org_id project_id default_subject_id sess =
     \<lparr>base = rstrip_slash base_url, api_key = key, org = org_id, project = project_id,
      subject = default_subject_id,
      session = (case sess of None \<Rightarrow> fresh | Some s \<Rightarrow> s)\<rparr>"

definition headers :: "client \<Rightarrow> pyval \<Rightarrow> (string \<times> pyval) list" where
  "headers c subject_id =
     [(''Content-Type'', PStr ''application/json''),
      (''X-Capsule-Key'', PStr (api_key c)),
      (''X-Capsule-Org'', PStr (org c)),
      (''X-Capsule-Project'', PStr (project c)),
      (''X-Capsule-Subject'', py_or subject_id (PStr (subject c)))]"

definition startswith_slash :: "string \<Rightarrow> bool" where
  "startswith_slash p = (case p of [] \<Rightarrow> False | ch # _ \<Rightarrow> ch = CHR ''/'')"

definition failure_message :: "int \<Rightarrow> string \<Rightarrow> string" where
  "failure_message code body = ''Capsule request failed ('' @ str_int code @ ''): '' @ body"

text \<open>The envelope rule of \<^verbatim>\<open>_request\<close>: its return expression, on the parsed body.\<close>

definition unwrap :: "pyval \<Rightarrow> exn + pyval" where
  "unwrap payload =
     (if (case payload of PDict d \<Rightarrow> map_of d ''data'' \<noteq> None | _ \<Rightarrow> False)
      then py_get payload ''data'' PNone
      else Inr payload)"

definition request ::
  "client \<Rightarrow> string \<Rightarrow> string \<Rightarrow> pyval \<Rightarrow> pyval \<Rightarrow> pyval \<Rightarrow> (exn + pyval) \<times> client" where
  "request c method path json params subject_id =
     (let url = base c @ (if startswith_slash path then path else ''/'' @ path);
          rq = \<lparr>rq_method = method, rq_url = url, rq_headers = headers c subject_id,
                rq_json = json, rq_params = params, rq_timeout = 30\<rparr>;
          answer = session_request (session c) rq;
          c' = c\<lparr>session := snd answer\<rparr>
      in case fst answer of
           Inl e \<Rightarrow> (Inl e, c')
         | Inr response \<Rightarrow>
             if status_code response \<ge> 400
             then (Inl (RuntimeError (failure_message (status_code response) (resp_text response))), c')
             else (case json_body response of
                     None \<Rightarrow> (Inl JSONDecodeError, c')
                   | Some payload \<Rightarrow> (unwrap payload, c')))"

text \<open>An argument declared \<^verbatim>\<open>Optional[T]\<close>: None, or a value of the type.\<close>

definition optional :: "('a \<Rightarrow> pyval) \<Rightarrow> 'a option \<Rightarrow> pyval" where
  "optional wrap x = (case x of None \<Rightarrow> PNone | Some v \<Rightarrow> wrap v)"

section \<open>Keyword arguments\<close>

text \<open>
  How Python binds the keyword arguments of a method call to a signature
  \<^verbatim>\<open>def f(self, *, a, b=..., **kwargs)\<close>: the call is given as the keywords it supplies
  (written out or unpacked from mappings, in order). \<open>positional\<close> are the parameters
  the call has already bound by position (\<^verbatim>\<open>self\<close>, bound to the client), \<open>names\<close> the
  keyword-only parameters. A keyword supplied twice, or one that names a parameter already
  bound by position, is rejected with a TypeError before the body runs; the keywords
  naming a keyword-only parameter are bound to it, and the others are collected, in order,
  into \<^verbatim>\<open>kwargs\<close>.
\<close>

definition bind_keywords ::
  "string list \<Rightarrow> string list \<Rightarrow> (string \<times> pyval) list \<Rightarrow>
     exn + ((string \<times> pyval) list \<times> (string \<times> pyval) list)" where
  "bind_keywords positional names kws =
     (if distinct (map fst kws) \<and> \<not> list_ex (\<lambda>kv. fst kv \<in> set positional) kws
      then Inr (filter (\<lambda>kv. fst kv \<in> set names) kws,
                filter (\<lambda>kv. fst kv \<notin> set names) kws)
      else Inl TypeError)"

section \<open>Core operations\<close>

definition store_memory ::
  "client \<Rightarrow> pyval \<Rightarrow> pyval \<Rightarrow> (string \<times> pyval) list \<Rightarrow> (exn + pyval) \<times> client" where
  "store_memory c content pinned kwargs =
     (let body = PDict (dict_display ([(''content'', content), (''pinned'', pinned)] @ kwargs))
      in request c ''POST'' ''/v1/memories'' body PNone PNone)"

text \<open>
  A call \<^verbatim>\<open>client.store_memory(**kws)\<close> of the method
  \<^verbatim>\<open>store_memory(self, *, content, pinned=False, **kwargs)\<close>: \<^verbatim>\<open>content\<close> is required,
  \<^verbatim>\<open>pinned\<close> defaults to False.
\<close>

definition store_memory_call :: "client \<Rightarrow> (string \<times> pyval) list \<Rightarrow> (exn + pyval) \<times> client" where
  "store_memory_call c kws =
     (case bind_keywords [''self''] [''content'', ''pinned''] kws of
        Inl e \<Rightarrow> (Inl e, c)
      | Inr (named, kwargs) \<Rightarrow>
          (case map_of named ''content'' of
             None \<Rightarrow> (Inl TypeError, c)
           | Some content \<Rightarrow>
               store_memory c content
                 (case map_of named ''pinned'' of None \<Rightarrow> PBool False | Some p \<Rightarrow> p) kwargs))"

definition list_memories ::
  "client \<Rightarrow> pyval \<Rightarrow> pyval \<Rightarrow> (string \<times> pyval) list \<Rightarrow> (exn + pyval) \<times> client" where
  "list_memories c limit subject_id filters =
     (let params = PDict (dict_display ((''limit'', limit) # filters))
      in request c ''GET'' ''/v1/memories'' PNone params subject_id)"

definition search ::
  "client \<Rightarrow> pyval \<Rightarrow> pyval \<Rightarrow> (string \<times> pyval) list \<Rightarrow> (exn + pyval) \<times> client" where
  "search c query subject_id options =
     (let body = PDict (dict_display ((''query'', query) # options))
      in request c ''POST'' ''/v1/memories/search'' body PNone subject_id)"

text \<open>
  A call \<^verbatim>\<open>client.search(**kws)\<close> of the method
  \<^verbatim>\<open>search(self, *, query, subject_id=None, **options)\<close>: \<^verbatim>\<open>query\<close> is required,
  \<^verbatim>\<open>subject_id\<close> defaults to None.
\<close>

definition search_call :: "client \<Rightarrow> (string \<times> pyval) list \<Rightarrow> (exn + pyval) \<times> client" where
  "search_call c kws =
     (case bind_keywords [''self''] [''query'', ''subject_id''] kws of
        Inl e \<Rightarrow> (Inl e, c)
      | Inr (named, options) \<Rightarrow>
          (case map_of named ''query'' of
             None \<Rightarrow> (Inl TypeError, c)
           | Some query \<Rightarrow>
               search c query
                 (case map_of named ''subject_id'' of None \<Rightarrow> PNone | Some s \<Rightarrow> s) options))"

section \<open>Capture pipeline helpers\<close>

record CaptureScoreResult =
  csr_event_id :: pyval
  csr_candidate_id :: pyval
  csr_status :: pyval
  csr_recommended :: pyval
  csr_score :: pyval
  csr_reasons :: pyval
  csr_memory_id :: pyval

record CaptureScoreResponse =
  rsp_threshold :: pyval
  rsp_results :: "CaptureScoreResult list"

record CaptureCandidate =
  cand_id :: pyval
  cand_role :: pyval
  cand_content :: pyval
  cand_status :: pyval
  cand_score :: pyval
  cand_threshold :: pyval
  cand_recommended :: pyval
  cand_category :: pyval
  cand_reasons :: pyval
  cand_metadata :: pyval
  cand_memory_id :: pyval
  cand_auto_accepted :: pyval
  cand_auto_decision_reason :: pyval
  cand_created_at :: pyval
  cand_updated_at :: pyval

text \<open>The element expression of the comprehension in \<^verbatim>\<open>score_capture\<close>.\<close>

definition score_result :: "pyval \<Rightarrow> exn + CaptureScoreResult" where
  "score_result result =
     ebind (py_get result ''eventId'' PNone) (\<lambda>event_id.
     ebind (py_get result ''candidateId'' PNone) (\<lambda>candidate_id.
     ebind (py_getitem result ''status'') (\<lambda>status.
     ebind (py_getitem result ''recommended'') (\<lambda>recommended.
     ebind (py_getitem result ''score'') (\<lambda>score.
     ebind (py_get result ''reasons'' (PList [])) (\<lambda>reasons.
     ebind (py_get result ''memoryId'' PNone) (\<lambda>memory_id.
     Inr \<lparr>csr_event_id = event_id, csr_candidate_id = candidate_id, csr_status = status,
          csr_recommended = recommended, csr_score = score, csr_reasons = reasons,
          csr_memory_id = memory_id\<rparr>)))))))"

definition score_capture ::
  "client \<Rightarrow> pyval \<Rightarrow> pyval \<Rightarrow> pyval \<Rightarrow> (exn + CaptureScoreResponse) \<times> client" where
  "score_capture c events threshold subject_id =
     (case py_iter events of
        Inl e \<Rightarrow> (Inl e, c)
      | Inr evs \<Rightarrow>
          (let answer = request c ''POST'' ''/v1/memories/capture''
                          (PDict [(''events'', PList evs), (''threshold'', threshold)]) PNone subject_id
           in (ebind (fst answer) (\<lambda>payload.
               ebind (py_get payload ''results'' (PList [])) (\<lambda>rs.
               ebind (py_iter rs) (\<lambda>items.
               ebind (comprehension score_result items) (\<lambda>results.
               ebind (py_get payload ''threshold'' (py_or threshold (PFloat 0.6))) (\<lambda>th.
               Inr \<lparr>rsp_threshold = th, rsp_results = results\<rparr>))))),
               snd answer)))"

text \<open>The element expression of the comprehension in \<^verbatim>\<open>list_capture_candidates\<close>.\<close>

definition capture_candidate :: "pyval \<Rightarrow> exn + CaptureCandidate" where
  "capture_candidate item =
     ebind (py_getitem item ''id'') (\<lambda>i.
     ebind (py_getitem item ''role'') (\<lambda>role.
     ebind (py_getitem item ''content'') (\<lambda>content.
     ebind (py_getitem item ''status'') (\<lambda>status.
     ebind (py_getitem item ''score'') (\<lambda>score.
     ebind (py_getitem item ''threshold'') (\<lambda>threshold.
     ebind (py_getitem item ''recommended'') (\<lambda>recommended.
     ebind (py_get item ''category'' (PStr [])) (\<lambda>category.
     ebind (py_get item ''reasons'' (PList [])) (\<lambda>reasons.
     ebind (py_get item ''metadata'' (PDict [])) (\<lambda>metadata.
     ebind (py_get item ''memoryId'' PNone) (\<lambda>memory_id.
     ebind (py_get item ''autoAccepted'' (PBool False)) (\<lambda>auto_accepted.
     ebind (py_get item ''autoDecisionReason'' PNone) (\<lambda>auto_decision_reason.
     ebind (py_get item ''createdAt'' (PStr [])) (\<lambda>created_at.
     ebind (py_get item ''updatedAt'' (PStr [])) (\<lambda>updated_at.
     Inr \<lparr>cand_id = i, cand_role = role, cand_content = content, cand_status = status,
          cand_score = score, cand_threshold = threshold, cand_recommended = recommended,
          cand_category = category, cand_reasons = reasons, cand_metadata = metadata,
          cand_memory_id = memory_id, cand_auto_accepted = auto_accepted,
          cand_auto_decision_reason = auto_decision_reason, cand_created_at = created_at,
          cand_updated_at = updated_at\<rparr>)))))))))))))))"

definition list_capture_candidates ::
  "client \<Rightarrow> pyval \<Rightarrow> pyval \<Rightarrow> pyval \<Rightarrow> (exn + CaptureCandidate list) \<times> client" where
  "list_capture_candidates c status limit subject_id =
     (let answer = request c ''GET'' ''/v1/memories/capture'' PNone
                     (PDict [(''status'', status), (''limit'', limit)]) subject_id
      in (ebind (fst answer) (\<lambda>payload.
          ebind (py_get payload ''items'' (PList [])) (\<lambda>its.
          ebind (py_iter its) (\<lambda>items.
          comprehension capture_candidate items))),
          snd answer))"

definition approve_capture_candidate ::
  "client \<Rightarrow> string \<Rightarrow> pyval \<Rightarrow> pyval \<Rightarrow> (exn + pyval) \<times> client" where
  "approve_capture_candidate c candidate_id overrides subject_id =
     request c ''POST'' (''/v1/memories/capture/'' @ candidate_id @ ''/approve'')
       (PDict [(''memory'', py_or overrides PNone)]) PNone subject_id"

definition reject_capture_candidate ::
  "client \<Rightarrow> string \<Rightarrow> pyval \<Rightarrow> pyval \<Rightarrow> (exn + pyval) \<times> client" where
  "reject_capture_candidate c candidate_id reason subject_id =
     request c ''POST'' (''/v1/memories/capture/'' @ candidate_id @ ''/reject'')
       (PDict [(''reason'', reason)]) PNone subject_id"

text \<open>The requests a call issued: those in the session's log after it that were not there before.\<close>

definition new_requests :: "client \<Rightarrow> client \<Rightarrow> http_request list" where
  "new_requests c c' = drop (length (sent (session c))) (sent (session c'))"

section \<open>Shapes of payload objects\<close>

text \<open>
  The keys the two decoders read by subscript (a missing one raises), and what it means
  for an element of a payload list to be an object that has, or lacks, some keys.
\<close>

definition score_required :: "string list" where
  "score_required = [''status'', ''recommended'', ''score'']"

definition candidate_required :: "string list" where
  "candidate_required =
     [''id'', ''role'', ''content'', ''status'', ''score'', ''threshold'', ''recommended'']"

definition is_object :: "pyval \<Rightarrow> bool" where
  "is_object x = (case x of PDict d \<Rightarrow> True | _ \<Rightarrow> False)"

definition has_keys :: "string list \<Rightarrow> pyval \<Rightarrow> bool" where
  "has_keys ks x = (case x of PDict d \<Rightarrow> list_all (\<lambda>k. map_of d k \<noteq> None) ks | _ \<Rightarrow> False)"

definition lacks_keys :: "string list \<Rightarrow> pyval \<Rightarrow> bool" where
  "lacks_keys ks x = (case x of PDict d \<Rightarrow> list_all (\<lambda>k. map_of d k = None) ks | _ \<Rightarrow> False)"

definition lacks_a_key :: "string list \<Rightarrow> pyval \<Rightarrow> bool" where
  "lacks_a_key ks x = (case x of PDict d \<Rightarrow> list_ex (\<lambda>k. map_of d k = None) ks | _ \<Rightarrow> False)"

text \<open>A decoded record carries the values its object has under the subscripted keys.\<close>

definition score_reads :: "pyval \<Rightarrow> CaptureScoreResult \<Rightarrow> bool" where
  "score_reads x rec =
     (py_getitem x ''status'' = Inr (csr_status rec)
    \<and> py_getitem x ''recommended'' = Inr (csr_recommended rec)
    \<and> py_getitem x ''score'' = Inr (csr_score rec))"

definition candidate_reads :: "pyval \<Rightarrow> CaptureCandidate \<Rightarrow> bool" where
  "candidate_reads x rec =
     (py_getitem x ''id'' = Inr (cand_id rec)
    \<and> py_getitem x ''role'' = Inr (cand_role rec)
    \<and> py_getitem x ''content'' = Inr (cand_content rec)
    \<and> py_getitem x ''status'' = Inr (cand_status rec)
    \<and> py_getitem x ''score'' = Inr (cand_score rec)
    \<and> py_getitem x ''threshold'' = Inr (cand_threshold rec)
    \<and> py_getitem x ''recommended'' = Inr (cand_recommended rec))"

text \<open>
  A decoded record carries, for each key read with \<^verbatim>\<open>.get\<close>, the object's value when the
  key is there and the default of that key when it is not.
\<close>

definition score_defaults :: "pyval \<Rightarrow> CaptureScoreResult \<Rightarrow> bool" where
  "score_defaults x rec =
     (py_get x ''eventId'' PNone = Inr (csr_event_id rec)
    \<and> py_get x ''candidateId'' PNone = Inr (csr_candidate_id rec)
    \<and> py_get x ''reasons'' (PList []) = Inr (csr_reasons rec)
    \<and> py_get x ''memoryId'' PNone = Inr (csr_memory_id rec))"

definition candidate_defaults :: "pyval \<Rightarrow> CaptureCandidate \<Rightarrow> bool" where
  "candidate_defaults x rec =
     (py_get x ''category'' (PStr []) = Inr (cand_category rec)
    \<and> py_get x ''reasons'' (PList []) = Inr (cand_reasons rec)
    \<and> py_get x ''metadata'' (PDict []) = Inr (cand_metadata rec)
    \<and> py_get x ''memoryId'' PNone = Inr (cand_memory_id rec)
    \<and> py_get x ''autoAccepted'' (PBool False) = Inr (cand_auto_accepted rec)
    \<and> py_get x ''autoDecisionReason'' PNone = Inr (cand_auto_decision_reason rec)
    \<and> py_get x ''createdAt'' (PStr []) = Inr (cand_created_at rec)
    \<and> py_get x ''updatedAt'' (PStr []) = Inr (cand_updated_at rec))"

section \<open>A test double\<close>

text \<open>
  A session whose other side answers every request with the same response, and a client
  built on it by the constructor; used to run the operations on concrete inputs.
\<close>

definition canned :: "http_response \<Rightarrow> http_session" where
  "canned r = \<lparr>transport = (\<lambda>rq. Inr r), sent = []\<rparr>"

definition demo_client :: "http_response \<Rightarrow> client" where
  "demo_client r =
     CapsuleMemoryClient (canned r) ''https://capsule.test/'' ''key'' ''org'' ''proj'' ''alice'' None"

definition ok_response :: "pyval \<Rightarrow> http_response" where
  "ok_response body = \<lparr>status_code = 200, resp_text = ''(json)'', json_body = Some body\<rparr>"

text \<open>A candidate object and a score result object with the subscripted keys only.\<close>

definition demo_candidate :: "string \<Rightarrow> pyval" where
  "demo_candidate ident =
     PDict [(''id'', PStr ident), (''role'', PStr ''user''), (''content'', PStr ''likes tea''),
            (''status'', PStr ''pending''), (''score'', PFloat 0.9), (''threshold'', PFloat 0.6),
            (''recommended'', PBool True)]"

definition demo_result :: "string \<Rightarrow> pyval" where
  "demo_result st =
     PDict [(''status'', PStr st), (''recommended'', PBool True), (''score'', PFloat 0.9)]"

text \<open>
  Two payloads: in the first the second score result has no \<^verbatim>\<open>score\<close> and the candidate
  is complete; in the second the score result is complete and the second candidate has
  only an \<^verbatim>\<open>id\<close>.
\<close>

definition payload_a :: "(string \<times> pyval) list" where
  "payload_a =
     [(''results'', PList [demo_result ''stored'',
                          PDict [(''status'', PStr ''skipped''), (''recommended'', PBool False)]]),
      (''items'', PList [demo_candidate ''c1''])]"

definition payload_b :: "(string \<times> pyval) list" where
  "payload_b =
     [(''results'', PList [demo_result ''stored'']),
      (''items'', PList [demo_candidate ''c1'', PDict [(''id'', PStr ''c2'')]])]"

section \<open>The failure message determines the status code and the body text\<close>

lemma digit_val_digit_char: "d < 10 \<Longrightarrow> digit_val (digit_char d) = d"
proof -
  assume "d < 10"
  then have "d = 0 \<or> d = 1 \<or> d = 2 \<or> d = 3 \<or> d = 4 \<or> d = 5 \<or> d = 6 \<or> d = 7 \<or> d = 8 \<or> d = 9"
    by arith
  then show ?thesis by (elim disjE) (simp_all add: digit_val_def digit_char_def)
qed

lemma digit_char_in: "d < 10 \<Longrightarrow> digit_char d \<in> set ''0123456789''"
  unfolding digit_char_def by (rule nth_mem) simp


lemma set_str_nat: "set (str_nat n) \<subseteq> set ''0123456789''"
proof (induction n rule: str_nat.induct)
  case (1 n)
  show ?case
  proof (cases "n < 10")
    case True
    then show ?thesis using digit_char_in[of n] by (subst str_nat.simps) simp
  next
    case False
    have "n mod 10 < 10" by simp
    from digit_char_in[OF this] 1[OF False] False show ?thesis
      by (subst str_nat.simps) simp
  qed
qed

lemma nat_of_digits_str_nat: "nat_of_digits (str_nat n) = n"
proof (induction n rule: str_nat.induct)
  case (1 n)
  show ?case
  proof (cases "n < 10")
    case True
    then show ?thesis
      by (subst str_nat.simps) (simp add: nat_of_digits_def digit_val_digit_char)
  next
    case False
    have "n mod 10 < 10" by simp
    with 1[OF False] False show ?thesis
      by (subst str_nat.simps) (simp add: nat_of_digits_def digit_val_digit_char)
  qed
qed

lemma str_nat_inj: "str_nat m = str_nat n \<Longrightarrow> m = n"
proof -
  assume "str_nat m = str_nat n"
  then have "nat_of_digits (str_nat m) = nat_of_digits (str_nat n)" by (rule arg_cong)
  then show "m = n" by (simp only: nat_of_digits_str_nat)
qed

lemma str_nat_nonempty: "str_nat n \<noteq> []"
  by (subst str_nat.simps) simp

lemma hd_str_nat_no_minus: "hd (str_nat n) \<noteq> CHR ''-''"
proof -
  have "hd (str_nat n) \<in> set (str_nat n)" using str_nat_nonempty by simp
  with set_str_nat[of n] show ?thesis by auto
qed


lemma str_int_inj: "str_int i = str_int j \<Longrightarrow> i = j"
proof -
  assume eq: "str_int i = str_int j"
  consider "i < 0" "j < 0" | "i < 0" "\<not> j < 0" | "\<not> i < 0" "j < 0" | "\<not> i < 0" "\<not> j < 0" by blast
  then show ?thesis
  proof cases
    case 1
    with eq have "str_nat (nat (- i)) = str_nat (nat (- j))" by (simp add: str_int_def)
    then have "nat (- i) = nat (- j)" by (rule str_nat_inj)
    with 1 show ?thesis by simp
  next
    case 2
    with eq have "CHR ''-'' # str_nat (nat (- i)) = str_nat (nat j)" by (simp add: str_int_def)
    then have "hd (str_nat (nat j)) = CHR ''-''" by (metis list.sel(1))
    then show ?thesis using hd_str_nat_no_minus by blast
  next
    case 3
    with eq have "CHR ''-'' # str_nat (nat (- j)) = str_nat (nat i)" by (simp add: str_int_def)
    then have "hd (str_nat (nat i)) = CHR ''-''" by (metis list.sel(1))
    then show ?thesis using hd_str_nat_no_minus by blast
  next
    case 4
    with eq have "str_nat (nat i) = str_nat (nat j)" by (simp add: str_int_def)
    then have "nat i = nat j" by (rule str_nat_inj)
    with 4 show ?thesis by simp
  qed
qed

lemma paren_notin_str_int: "CHR '')'' \<notin> set (str_int i)"
  using set_str_nat[of "nat i"] set_str_nat[of "nat (- i)"]
  by (auto simp: str_int_def)

lemma split_at_first:
  "x \<notin> set xs \<Longrightarrow> x \<notin> set ys \<Longrightarrow> xs @ x # us = ys @ x # vs \<Longrightarrow> xs = ys \<and> us = vs"
proof (induction xs arbitrary: ys)
  case Nil
  then show ?case by (cases ys) auto
next
  case (Cons a xs)
  then show ?case by (cases ys) auto
qed

lemma failure_message_inj:
  assumes "failure_message a s = failure_message b t"
  shows "a = b \<and> s = t"
proof -
  from assms have eq: "str_int a @ CHR '')'' # ('': '' @ s) = str_int b @ CHR '')'' # ('': '' @ t)"
    by (simp add: failure_message_def)
  have "str_int a = str_int b \<and> '': '' @ s = '': '' @ t"
    by (rule split_at_first[OF paren_notin_str_int[of a] paren_notin_str_int[of b] eq])
  then show ?thesis using str_int_inj by simp
qed

section \<open>Facts about the request layer\<close>

lemma snd_request:
  "snd (request c m p j q s) =
     c\<lparr>session := (session c)\<lparr>sent := sent (session c) @
        [\<lparr>rq_method = m, rq_url = base c @ (if startswith_slash p then p else ''/'' @ p),
          rq_headers = headers c s, rq_json = j, rq_params = q, rq_timeout = 30\<rparr>]\<rparr>\<rparr>"
  by (simp add: request_def session_request_def Let_def split: sum.splits option.splits)

lemma new_requests_request:
  "new_requests c (snd (request c m p j q s)) =
     [\<lparr>rq_method = m, rq_url = base c @ (if startswith_slash p then p else ''/'' @ p),
       rq_headers = headers c s, rq_json = j, rq_params = q, rq_timeout = 30\<rparr>]"
  by (simp add: snd_request new_requests_def)

lemma fst_request_failed:
  assumes "\<And>rq. transport (session c) rq = Inr r" and "400 \<le> status_code r"
  shows "fst (request c m p j q s) =
           Inl (RuntimeError (failure_message (status_code r) (resp_text r)))"
  using assms by (simp add: request_def session_request_def Let_def)

lemma fst_request_ok:
  assumes "\<And>rq. transport (session c) rq = Inr r" and "status_code r < 400"
    and "json_body r = Some body"
  shows "fst (request c m p j q s) = unwrap body"
  using assms by (simp add: request_def session_request_def Let_def)

lemma unwrap_not_runtime: "unwrap body \<noteq> Inl (RuntimeError msg)"
  by (cases body) (simp_all add: unwrap_def)

lemma fst_request_not_runtime:
  assumes "\<And>rq. transport (session c) rq = Inr r" and "status_code r < 400"
  shows "fst (request c m p j q s) \<noteq> Inl (RuntimeError msg)"
proof (cases "json_body r")
  case None
  with assms show ?thesis by (simp add: request_def session_request_def Let_def)
next
  case (Some body)
  with assms show ?thesis by (simp add: fst_request_ok unwrap_not_runtime)
qed

lemma unwrap_cases:
  "unwrap payload =
     Inr (case payload of
            PDict d \<Rightarrow> (case map_of d ''data'' of Some v \<Rightarrow> v | None \<Rightarrow> payload)
          | _ \<Rightarrow> payload)"
  by (cases payload) (auto simp: unwrap_def split: option.splits)

section \<open>Facts about dict displays\<close>




section \<open>Facts about the test double\<close>

lemma demo_client_simps:
  "base (demo_client r) = ''https://capsule.test''"
  "api_key (demo_client r) = ''key''"
  "org (demo_client r) = ''org''"
  "project (demo_client r) = ''proj''"
  "subject (demo_client r) = ''alice''"
  "session (demo_client r) = canned r"
  by (simp_all add: demo_client_def CapsuleMemoryClient_def rstrip_slash_def)

lemma canned_simps: "transport (canned r) rq = Inr r" "sent (canned r) = []"
  by (simp_all add: canned_def)

lemma ok_response_simps:
  "status_code (ok_response b) = 200" "json_body (ok_response b) = Some b"
  by (simp_all add: ok_response_def)

section \<open>The envelope rule\<close>

text \<open>
  C4: when the other side answers with a status below 400 and a JSON body, the request
  layer returns the value under \<^verbatim>\<open>data\<close> if the parsed body is a mapping with that key
  (whatever the value, null included), and the parsed body itself for every other shape.
  The five passthrough operations return that same value.
\<close>

theorem data_envelope_unwrapped:
  assumes "\<And>rq. transport (session c) rq = Inr r"
    and "status_code r < 400"
    and "json_body r = Some payload"
  shows "let v = (case payload of
                    PDict d \<Rightarrow> (case map_of d ''data'' of Some x \<Rightarrow> x | None \<Rightarrow> payload)
                  | _ \<Rightarrow> payload)
         in fst (request c m p j q s) = Inr v
          \<and> fst (store_memory c content pinned kwargs) = Inr v
          \<and> fst (list_memories c limit s filters) = Inr v
          \<and> fst (search c query s options) = Inr v
          \<and> fst (approve_capture_candidate c candidate_id overrides s) = Inr v
          \<and> fst (reject_capture_candidate c candidate_id reason s) = Inr v"
proof -
  have "fst (request c m' p' j' q' s') = unwrap payload" for m' p' j' q' s'
    using assms by (rule fst_request_ok)
  then show ?thesis
    by (simp add: Let_def unwrap_cases store_memory_def list_memories_def search_def
        approve_capture_candidate_def reject_capture_candidate_def)
qed

theorem data_envelope_unwrapped_witness:
  "fst (request (demo_client (ok_response (PDict [(''data'', PNone), (''meta'', PInt 1)])))
          ''GET'' ''/v1/memories'' PNone PNone PNone) = Inr PNone
   \<and> fst (search (demo_client (ok_response (PList [PInt 1]))) (PStr ''q'') PNone []) = Inr (PList [PInt 1])
   \<and> fst (search (demo_client (ok_response (PDict [(''items'', PList [])]))) (PStr ''q'') PNone [])
       = Inr (PDict [(''items'', PList [])])"
  using data_envelope_unwrapped[of "demo_client (ok_response (PDict [(''data'', PNone), (''meta'', PInt 1)]))"
          "ok_response (PDict [(''data'', PNone), (''meta'', PInt 1)])"
          "PDict [(''data'', PNone), (''meta'', PInt 1)]" "''GET''" "''/v1/memories''" PNone PNone PNone]
        data_envelope_unwrapped[of "demo_client (ok_response (PList [PInt 1]))"
          "ok_response (PList [PInt 1])" "PList [PInt 1]" _ _ _ _ PNone _ _ _ _ _ "PStr ''q''" "[]"]
        data_envelope_unwrapped[of "demo_client (ok_response (PDict [(''items'', PList [])]))"
          "ok_response (PDict [(''items'', PList [])])" "PDict [(''items'', PList [])]" _ _ _ _ PNone _ _ _ _ _ "PStr ''q''" "[]"]
  by (simp add: demo_client_simps canned_simps ok_response_simps Let_def)

section \<open>Scenarios\<close>

text \<open>
  C8: \<^verbatim>\<open>store_memory(content="hello", pinned=True)\<close> issues one POST to
  \<^verbatim>\<open>/v1/memories\<close> whose JSON body is exactly the mapping of \<^verbatim>\<open>content\<close> to "hello" and
  \<^verbatim>\<open>pinned\<close> to true, and returns the \<^verbatim>\<open>data\<close> field of the answer unchanged.
\<close>

theorem store_memory_round_trip:
  assumes "\<And>rq. transport (session c) rq = Inr r"
    and "status_code r < 400"
    and "json_body r = Some (PDict d)"
    and "map_of d ''data'' = Some v"
  shows "new_requests c (snd (store_memory_call c [(''content'', PStr ''hello''), (''pinned'', PBool True)])) =
           [\<lparr>rq_method = ''POST'', rq_url = base c @ ''/v1/memories'',
             rq_headers = headers c PNone,
             rq_json = PDict [(''content'', PStr ''hello''), (''pinned'', PBool True)],
             rq_params = PNone, rq_timeout = 30\<rparr>]
       \<and> fst (store_memory_call c [(''content'', PStr ''hello''), (''pinned'', PBool True)]) = Inr v"
proof -
  have call: "store_memory_call c [(''content'', PStr ''hello''), (''pinned'', PBool True)] =
          request c ''POST'' ''/v1/memories''
            (PDict [(''content'', PStr ''hello''), (''pinned'', PBool True)]) PNone PNone"
    by (simp add: store_memory_call_def bind_keywords_def store_memory_def dict_display_def)
  have "fst (request c ''POST'' ''/v1/memories''
            (PDict [(''content'', PStr ''hello''), (''pinned'', PBool True)]) PNone PNone) = unwrap (PDict d)"
    using assms(1-3) by (rule fst_request_ok)
  with assms(4) show ?thesis
    by (simp add: call new_requests_request startswith_slash_def unwrap_def)
qed

theorem store_memory_round_trip_witness:
  "fst (store_memory_call (demo_client (ok_response (PDict [(''data'', PDict [(''id'', PStr ''m1'')])])))
         [(''content'', PStr ''hello''), (''pinned'', PBool True)]) = Inr (PDict [(''id'', PStr ''m1'')])"
  using store_memory_round_trip[of "demo_client (ok_response (PDict [(''data'', PDict [(''id'', PStr ''m1'')])]))"
      "ok_response (PDict [(''data'', PDict [(''id'', PStr ''m1'')])])" "[(''data'', PDict [(''id'', PStr ''m1'')])]"
      "PDict [(''id'', PStr ''m1'')]"]
  by (simp add: demo_client_simps canned_simps ok_response_simps)

text \<open>
  C9: \<^verbatim>\<open>approve_capture_candidate("abc123")\<close> with no overrides issues one POST to
  \<^verbatim>\<open>/v1/memories/capture/abc123/approve\<close> whose JSON body is exactly the mapping of
  \<^verbatim>\<open>memory\<close> to null.
\<close>

theorem approve_without_overrides:
  "new_requests c (snd (approve_capture_candidate c ''abc123'' PNone subject_id)) =
     [\<lparr>rq_method = ''POST'', rq_url = base c @ ''/v1/memories/capture/abc123/approve'',
       rq_headers = headers c subject_id, rq_json = PDict [(''memory'', PNone)],
       rq_params = PNone, rq_timeout = 30\<rparr>]"
  by (simp add: approve_capture_candidate_def new_requests_request py_or_def startswith_slash_def)

section \<open>Failure on an error status\<close>

lemma py_get_not_runtime: "py_get x k d \<noteq> Inl (RuntimeError msg)"
  by (cases x) simp_all

lemma py_getitem_not_runtime: "py_getitem x k \<noteq> Inl (RuntimeError msg)"
  by (cases x) (simp_all split: option.splits)

lemma py_iter_not_runtime: "py_iter x \<noteq> Inl (RuntimeError msg)"
  by (cases x) simp_all

lemma ebind_not_runtime:
  "a \<noteq> Inl (RuntimeError msg) \<Longrightarrow> (\<And>x. f x \<noteq> Inl (RuntimeError msg)) \<Longrightarrow>
     ebind a f \<noteq> Inl (RuntimeError msg)"
  by (cases a) auto

lemma comprehension_not_runtime:
  "(\<And>x. f x \<noteq> Inl (RuntimeError msg)) \<Longrightarrow> comprehension f xs \<noteq> Inl (RuntimeError msg)"
  by (induction xs) (auto split: sum.splits)

lemma score_result_not_runtime: "score_result x \<noteq> Inl (RuntimeError msg)"
  unfolding score_result_def
  by (intro ebind_not_runtime py_get_not_runtime py_getitem_not_runtime) simp

lemma capture_candidate_not_runtime: "capture_candidate x \<noteq> Inl (RuntimeError msg)"
  unfolding capture_candidate_def
  by (intro ebind_not_runtime py_get_not_runtime py_getitem_not_runtime) simp

lemma score_capture_raises:
  "fst (request c ''POST'' ''/v1/memories/capture''
          (PDict [(''events'', PList evs), (''threshold'', th)]) PNone sid) = Inl e \<Longrightarrow>
   fst (score_capture c (PList evs) th sid) = Inl e"
  by (simp add: score_capture_def Let_def)

lemma list_capture_candidates_raises:
  "fst (request c ''GET'' ''/v1/memories/capture'' PNone
          (PDict [(''status'', st), (''limit'', limit)]) sid) = Inl e \<Longrightarrow>
   fst (list_capture_candidates c st limit sid) = Inl e"
  by (simp add: list_capture_candidates_def Let_def)

lemma score_capture_not_runtime:
  "fst (request c ''POST'' ''/v1/memories/capture''
          (PDict [(''events'', PList evs), (''threshold'', th)]) PNone sid) \<noteq> Inl (RuntimeError msg) \<Longrightarrow>
   fst (score_capture c (PList evs) th sid) \<noteq> Inl (RuntimeError msg)"
  unfolding score_capture_def Let_def
  by (simp del: ebind.simps)
     (intro ebind_not_runtime py_get_not_runtime py_iter_not_runtime comprehension_not_runtime
        score_result_not_runtime, simp_all)

lemma list_capture_candidates_not_runtime:
  "fst (request c ''GET'' ''/v1/memories/capture'' PNone
          (PDict [(''status'', st), (''limit'', limit)]) sid) \<noteq> Inl (RuntimeError msg) \<Longrightarrow>
   fst (list_capture_candidates c st limit sid) \<noteq> Inl (RuntimeError msg)"
  unfolding list_capture_candidates_def Let_def
  by (simp del: ebind.simps)
     (intro ebind_not_runtime py_get_not_runtime py_iter_not_runtime comprehension_not_runtime
        capture_candidate_not_runtime, simp_all)

lemma failure_message_404:
  "failure_message 404 ''not found'' = ''Capsule request failed (404): not found''"
  by (simp add: failure_message_def str_int_def str_nat.simps digit_char_def)

text \<open>
  C3: when the other side answers with a status code of 400 or more (so for every code
  in 400..599), each of the seven operations fails with the request-failed error, whose
  message holds exactly that status code and exactly the body text (the message
  determines both), and returns no value; when the status code is below 400, no
  operation raises that error.
\<close>

theorem request_failed_on_error_status:
  assumes "\<And>rq. transport (session c) rq = Inr r"
  shows "(400 \<le> status_code r \<longrightarrow>
           (let e = RuntimeError (failure_message (status_code r) (resp_text r))
            in fst (store_memory c content pinned kwargs) = Inl e
             \<and> fst (list_memories c limit sid filters) = Inl e
             \<and> fst (search c query sid options) = Inl e
             \<and> fst (score_capture c (PList evs) threshold sid) = Inl e
             \<and> fst (list_capture_candidates c status limit sid) = Inl e
             \<and> fst (approve_capture_candidate c candidate_id overrides sid) = Inl e
             \<and> fst (reject_capture_candidate c candidate_id reason sid) = Inl e)
           \<and> (\<forall>code body. failure_message code body = failure_message (status_code r) (resp_text r)
                 \<longrightarrow> code = status_code r \<and> body = resp_text r))
       \<and> (status_code r < 400 \<longrightarrow>
           (\<forall>msg. fst (store_memory c content pinned kwargs) \<noteq> Inl (RuntimeError msg)
             \<and> fst (list_memories c limit sid filters) \<noteq> Inl (RuntimeError msg)
             \<and> fst (search c query sid options) \<noteq> Inl (RuntimeError msg)
             \<and> fst (score_capture c (PList evs) threshold sid) \<noteq> Inl (RuntimeError msg)
             \<and> fst (list_capture_candidates c status limit sid) \<noteq> Inl (RuntimeError msg)
             \<and> fst (approve_capture_candidate c candidate_id overrides sid) \<noteq> Inl (RuntimeError msg)
             \<and> fst (reject_capture_candidate c candidate_id reason sid) \<noteq> Inl (RuntimeError msg)))"
proof (intro conjI impI)
  assume bad: "400 \<le> status_code r"
  have rq: "fst (request c m p j q s) =
      Inl (RuntimeError (failure_message (status_code r) (resp_text r)))" for m p j q s
    using assms bad by (rule fst_request_failed)
  show "let e = RuntimeError (failure_message (status_code r) (resp_text r))
            in fst (store_memory c content pinned kwargs) = Inl e
             \<and> fst (list_memories c limit sid filters) = Inl e
             \<and> fst (search c query sid options) = Inl e
             \<and> fst (score_capture c (PList evs) threshold sid) = Inl e
             \<and> fst (list_capture_candidates c status limit sid) = Inl e
             \<and> fst (approve_capture_candidate c candidate_id overrides sid) = Inl e
             \<and> fst (reject_capture_candidate c candidate_id reason sid) = Inl e"
    by (simp add: Let_def rq store_memory_def list_memories_def search_def
        approve_capture_candidate_def reject_capture_candidate_def
        score_capture_raises list_capture_candidates_raises)
  show "\<forall>code body. failure_message code body = failure_message (status_code r) (resp_text r)
                 \<longrightarrow> code = status_code r \<and> body = resp_text r"
    using failure_message_inj by blast
next
  assume good: "status_code r < 400"
  have rq: "fst (request c m p j q s) \<noteq> Inl (RuntimeError msg)" for m p j q s msg
    using assms good by (rule fst_request_not_runtime)
  show "\<forall>msg. fst (store_memory c content pinned kwargs) \<noteq> Inl (RuntimeError msg)
             \<and> fst (list_memories c limit sid filters) \<noteq> Inl (RuntimeError msg)
             \<and> fst (search c query sid options) \<noteq> Inl (RuntimeError msg)
             \<and> fst (score_capture c (PList evs) threshold sid) \<noteq> Inl (RuntimeError msg)
             \<and> fst (list_capture_candidates c status limit sid) \<noteq> Inl (RuntimeError msg)
             \<and> fst (approve_capture_candidate c candidate_id overrides sid) \<noteq> Inl (RuntimeError msg)
             \<and> fst (reject_capture_candidate c candidate_id reason sid) \<noteq> Inl (RuntimeError msg)"
    by (simp add: rq store_memory_def list_memories_def search_def
        approve_capture_candidate_def reject_capture_candidate_def
        score_capture_not_runtime list_capture_candidates_not_runtime)
qed


theorem request_failed_on_error_status_witness:
  "fst (search (demo_client \<lparr>status_code = 404, resp_text = ''not found'', json_body = None\<rparr>)
          (PStr ''q'') PNone []) = Inl (RuntimeError ''Capsule request failed (404): not found'')
   \<and> fst (score_capture (demo_client \<lparr>status_code = 404, resp_text = ''not found'', json_body = None\<rparr>)
          (PList []) PNone PNone) = Inl (RuntimeError ''Capsule request failed (404): not found'')
   \<and> fst (search (demo_client (ok_response (PList []))) (PStr ''q'') PNone [])
         \<noteq> Inl (RuntimeError ''Capsule request failed (200): (json)'')"
proof -
  let ?r = "\<lparr>status_code = 404, resp_text = ''not found'', json_body = None\<rparr>"
  have a: "transport (session (demo_client ?r)) rq = Inr ?r" for rq
    by (simp add: demo_client_simps canned_simps)
  have b: "transport (session (demo_client (ok_response (PList [])))) rq = Inr (ok_response (PList []))" for rq
    by (simp add: demo_client_simps canned_simps)
  from request_failed_on_error_status[of "demo_client ?r" ?r, OF a,
          of _ _ _ _ PNone _ "PStr ''q''" "[]" "[]" PNone]
  have "fst (search (demo_client ?r) (PStr ''q'') PNone []) =
          Inl (RuntimeError (failure_message 404 ''not found''))
      \<and> fst (score_capture (demo_client ?r) (PList []) PNone PNone) =
          Inl (RuntimeError (failure_message 404 ''not found''))"
    by (simp add: Let_def)
  moreover
  from request_failed_on_error_status[of "demo_client (ok_response (PList []))"
          "ok_response (PList [])", OF b, of _ _ _ _ PNone _ "PStr ''q''" "[]"]
  have "fst (search (demo_client (ok_response (PList []))) (PStr ''q'') PNone [])
         \<noteq> Inl (RuntimeError ''Capsule request failed (200): (json)'')"
    by (simp add: ok_response_simps)
  ultimately show ?thesis by (simp add: failure_message_404)
qed

section \<open>The header contract\<close>

lemma snd_score_capture:
  "snd (score_capture c (PList evs) th sid) =
     snd (request c ''POST'' ''/v1/memories/capture''
           (PDict [(''events'', PList evs), (''threshold'', th)]) PNone sid)"
  by (simp add: score_capture_def Let_def)

lemma snd_list_capture_candidates:
  "snd (list_capture_candidates c st limit sid) =
     snd (request c ''GET'' ''/v1/memories/capture'' PNone
           (PDict [(''status'', st), (''limit'', limit)]) sid)"
  by (simp add: list_capture_candidates_def Let_def)

lemma headers_of_new_requests:
  "map rq_headers (new_requests c (snd (request c m p j q s))) = [headers c s]"
  by (simp add: new_requests_request)

lemma headers_constructed:
  "headers (CapsuleMemoryClient fresh base_url key org_id project_id default_subject_id sess)
      (optional PStr override) =
     [(''Content-Type'', PStr ''application/json''),
      (''X-Capsule-Key'', PStr key),
      (''X-Capsule-Org'', PStr org_id),
      (''X-Capsule-Project'', PStr project_id),
      (''X-Capsule-Subject'',
         PStr (case override of
                 None \<Rightarrow> default_subject_id
               | Some s \<Rightarrow> if s = [] then default_subject_id else s))]"
  by (simp add: headers_def CapsuleMemoryClient_def optional_def py_or_def split: option.splits)

text \<open>
  C2, as the client does it: for all constructor arguments, each of the seven operations
  issues exactly one request, whose headers are exactly
  \<^verbatim>\<open>Content-Type: application/json\<close> and the four custom headers holding the
  constructor's API key, org id and project id, and a subject that is the per-call
  override when one is given and is not the empty string, and the constructor's default
  subject otherwise (\<^verbatim>\<open>store_memory\<close> takes no override and always sends the default).
\<close>

theorem headers_on_every_request:
  "let c = CapsuleMemoryClient fresh base_url key org_id project_id default_subject_id sess;
       sid = optional PStr override;
       hs = (\<lambda>subj. [(''Content-Type'', PStr ''application/json''),
                      (''X-Capsule-Key'', PStr key),
                      (''X-Capsule-Org'', PStr org_id),
                      (''X-Capsule-Project'', PStr project_id),
                      (''X-Capsule-Subject'', PStr subj)]);
       effective = (case override of
                      None \<Rightarrow> default_subject_id
                    | Some s \<Rightarrow> if s = [] then default_subject_id else s)
   in map rq_headers (new_requests c (snd (store_memory c content pinned kwargs))) = [hs default_subject_id]
    \<and> map rq_headers (new_requests c (snd (list_memories c limit sid filters))) = [hs effective]
    \<and> map rq_headers (new_requests c (snd (search c query sid options))) = [hs effective]
    \<and> map rq_headers (new_requests c (snd (score_capture c (PList evs) threshold sid))) = [hs effective]
    \<and> map rq_headers (new_requests c (snd (list_capture_candidates c status limit sid))) = [hs effective]
    \<and> map rq_headers (new_requests c (snd (approve_capture_candidate c candidate_id overrides sid))) = [hs effective]
    \<and> map rq_headers (new_requests c (snd (reject_capture_candidate c candidate_id reason sid))) = [hs effective]"
proof -
  have none: "PNone = optional PStr None" by (simp add: optional_def)
  show ?thesis
    unfolding Let_def store_memory_def list_memories_def search_def
      approve_capture_candidate_def reject_capture_candidate_def
      snd_score_capture snd_list_capture_candidates headers_of_new_requests
    by (simp add: headers_constructed headers_constructed[of _ _ _ _ _ _ _ None, folded none])
qed

theorem headers_on_every_request_witness:
  "map rq_headers (new_requests (demo_client (ok_response PNone))
      (snd (search (demo_client (ok_response PNone)) (PStr ''q'') (PStr ''bob'') []))) =
     [[(''Content-Type'', PStr ''application/json''), (''X-Capsule-Key'', PStr ''key''),
       (''X-Capsule-Org'', PStr ''org''), (''X-Capsule-Project'', PStr ''proj''),
       (''X-Capsule-Subject'', PStr ''bob'')]]"
  using headers_on_every_request[of "canned (ok_response PNone)" "''https://capsule.test/''"
      "''key''" "''org''" "''proj''" "''alice''" None "Some ''bob''" _ _ _ _ _ "PStr ''q''" "[]"]
  by (simp add: Let_def demo_client_def optional_def)

text \<open>
  An empty-string override is not sent: \<^verbatim>\<open>subject_id or self._subject\<close> takes the
  default subject for it.
\<close>

theorem empty_subject_override_counterexample:
  "map_of (rq_headers (hd (new_requests (demo_client (ok_response PNone))
      (snd (search (demo_client (ok_response PNone)) (PStr ''q'') (PStr '''') [])))))
     ''X-Capsule-Subject'' = Some (PStr ''alice'')
   \<and> map_of (rq_headers (hd (new_requests (demo_client (ok_response PNone))
      (snd (search (demo_client (ok_response PNone)) (PStr ''q'') (PStr '''') [])))))
     ''X-Capsule-Subject'' \<noteq> Some (PStr '''')"
  by (simp add: search_def new_requests_request headers_def py_or_def demo_client_simps)

section \<open>Decoding the capture payloads\<close>

lemma fst_score_capture:
  assumes "\<And>rq. transport (session c) rq = Inr r" and "status_code r < 400"
    and "json_body r = Some body" and "unwrap body = Inr payload"
  shows "fst (score_capture c (PList evs) th sid) =
           ebind (py_get payload ''results'' (PList [])) (\<lambda>rs.
           ebind (py_iter rs) (\<lambda>items.
           ebind (comprehension score_result items) (\<lambda>results.
           ebind (py_get payload ''threshold'' (py_or th (PFloat 0.6))) (\<lambda>t.
           Inr \<lparr>rsp_threshold = t, rsp_results = results\<rparr>))))"
proof -
  have "fst (request c ''POST'' ''/v1/memories/capture''
          (PDict [(''events'', PList evs), (''threshold'', th)]) PNone sid) = Inr payload"
    using fst_request_ok[OF assms(1-3)] assms(4) by simp
  then show ?thesis by (simp add: score_capture_def Let_def)
qed

lemma fst_list_capture_candidates:
  assumes "\<And>rq. transport (session c) rq = Inr r" and "status_code r < 400"
    and "json_body r = Some body" and "unwrap body = Inr payload"
  shows "fst (list_capture_candidates c st limit sid) =
           ebind (py_get payload ''items'' (PList [])) (\<lambda>its.
           ebind (py_iter its) (\<lambda>items.
           comprehension capture_candidate items))"
proof -
  have "fst (request c ''GET'' ''/v1/memories/capture'' PNone
          (PDict [(''status'', st), (''limit'', limit)]) sid) = Inr payload"
    using fst_request_ok[OF assms(1-3)] assms(4) by simp
  then show ?thesis by (simp add: list_capture_candidates_def Let_def)
qed

text \<open>
  C10: when the successful payload is a mapping without the key \<^verbatim>\<open>results\<close>,
  \<^verbatim>\<open>score_capture\<close> returns a response with an empty results list, and when it is a
  mapping without the key \<^verbatim>\<open>items\<close>, \<^verbatim>\<open>list_capture_candidates\<close> returns the empty
  list; neither call raises.
\<close>

theorem missing_list_key_gives_empty_list:
  assumes "\<And>rq. transport (session c) rq = Inr r" and "status_code r < 400"
    and "json_body r = Some body" and "unwrap body = Inr (PDict p)"
  shows "(map_of p ''results'' = None \<longrightarrow>
            fst (score_capture c (PList evs) threshold sid) =
              Inr \<lparr>rsp_threshold = (case map_of p ''threshold'' of
                                       None \<Rightarrow> py_or threshold (PFloat 0.6)
                                     | Some t \<Rightarrow> t),
                   rsp_results = []\<rparr>)
       \<and> (map_of p ''items'' = None \<longrightarrow>
            fst (list_capture_candidates c status limit sid) = Inr [])"
  by (simp add: fst_score_capture[OF assms] fst_list_capture_candidates[OF assms]
      split: option.splits)

theorem missing_list_key_gives_empty_list_witness:
  "fst (score_capture (demo_client (ok_response (PDict [(''threshold'', PFloat 0.7)])))
          (PList []) PNone PNone) = Inr \<lparr>rsp_threshold = PFloat 0.7, rsp_results = []\<rparr>
   \<and> fst (list_capture_candidates (demo_client (ok_response (PDict [(''data'', PDict [])])))
          (PStr ''pending'') (PInt 50) PNone) = Inr []"
proof -
  let ?b1 = "PDict [(''threshold'', PFloat 0.7)]"
  let ?b2 = "PDict [(''data'', PDict [])]"
  have t: "transport (session (demo_client x)) rq = Inr x" for x rq
    by (simp add: demo_client_simps canned_simps)
  have "unwrap ?b1 = Inr ?b1" and "unwrap ?b2 = Inr (PDict [])"
    by (simp_all add: unwrap_def)
  from missing_list_key_gives_empty_list[of "demo_client (ok_response ?b1)" "ok_response ?b1" ?b1
         "[(''threshold'', PFloat 0.7)]" "[]" PNone PNone, OF t _ _ this(1)]
       missing_list_key_gives_empty_list[of "demo_client (ok_response ?b2)" "ok_response ?b2" ?b2
         "[]" _ _ _ "PStr ''pending''" "PInt 50", OF t _ _ this(2)]
  show ?thesis by (simp add: ok_response_simps)
qed

section \<open>The threshold fallback\<close>

text \<open>
  What \<^verbatim>\<open>payload.get("threshold", threshold or 0.6)\<close> gives when the payload has no
  \<^verbatim>\<open>threshold\<close> key: 0.6 for no argument, the argument when it is not zero, and 0.6 again
  when it is zero.
\<close>

lemma score_capture_threshold_fallback:
  assumes "\<And>rq. transport (session c) rq = Inr r" and "status_code r < 400"
    and "json_body r = Some body" and "unwrap body = Inr (PDict p)"
    and "map_of p ''threshold'' = None"
    and "fst (score_capture c (PList evs) (optional PFloat threshold) sid) = Inr resp"
  shows "rsp_threshold resp =
           PFloat (case threshold of None \<Rightarrow> 0.6 | Some t \<Rightarrow> if t = 0 then 0.6 else t)"
proof -
  from assms(6) obtain results where
    "resp = \<lparr>rsp_threshold = py_or (optional PFloat threshold) (PFloat 0.6), rsp_results = results\<rparr>"
    unfolding fst_score_capture[OF assms(1-4)] using assms(5)
    by (cases "map_of p ''results''"; cases "py_iter (the (map_of p ''results''))";
        cases "comprehension score_result (projr (py_iter (the (map_of p ''results''))))")
       auto
  then show ?thesis
    by (simp add: py_or_def optional_def split: option.splits)
qed

text \<open>
  C1, at the input where the client departs from it: \<^verbatim>\<open>score_capture(events=[],
  threshold=0.0)\<close>, answered by a payload with no \<^verbatim>\<open>threshold\<close> key, sends the threshold
  0.0 in the request body and returns a response whose threshold is 0.6, not the 0.0 that
  was passed.
\<close>

theorem zero_threshold_reported_as_default:
  "fst (score_capture (demo_client (ok_response (PDict [(''results'', PList [])])))
          (PList []) (PFloat 0) PNone) = Inr \<lparr>rsp_threshold = PFloat 0.6, rsp_results = []\<rparr>
   \<and> map rq_json (new_requests (demo_client (ok_response (PDict [(''results'', PList [])])))
        (snd (score_capture (demo_client (ok_response (PDict [(''results'', PList [])])))
          (PList []) (PFloat 0) PNone))) =
       [PDict [(''events'', PList []), (''threshold'', PFloat 0)]]"
proof -
  let ?b = "PDict [(''results'', PList [])]"
  have t: "transport (session (demo_client x)) rq = Inr x" for x rq
    by (simp add: demo_client_simps canned_simps)
  have u: "unwrap ?b = Inr ?b" by (simp add: unwrap_def)
  have "fst (score_capture (demo_client (ok_response ?b)) (PList []) (PFloat 0) PNone) =
          Inr \<lparr>rsp_threshold = PFloat 0.6, rsp_results = []\<rparr>"
    by (simp add: fst_score_capture[OF t _ _ u] ok_response_simps py_or_def)
  then show ?thesis
    by (simp add: score_capture_def Let_def new_requests_request)
qed

section \<open>Facts about the decoders\<close>

lemma capture_candidate_ok:
  assumes "has_keys candidate_required x"
  shows "\<exists>rec. capture_candidate x = Inr rec \<and> candidate_reads x rec \<and> candidate_defaults x rec"
proof (cases x)
  case (PDict d)
  with assms obtain v1 v2 v3 v4 v5 v6 v7 where
    "map_of d ''id'' = Some v1" "map_of d ''role'' = Some v2" "map_of d ''content'' = Some v3"
    "map_of d ''status'' = Some v4" "map_of d ''score'' = Some v5"
    "map_of d ''threshold'' = Some v6" "map_of d ''recommended'' = Some v7"
    by (auto simp: has_keys_def candidate_required_def)
  with PDict show ?thesis
    by (simp add: capture_candidate_def candidate_reads_def candidate_defaults_def)
qed (use assms in \<open>simp_all add: has_keys_def\<close>)

lemma score_result_ok:
  assumes "has_keys score_required x"
  shows "\<exists>rec. score_result x = Inr rec \<and> score_reads x rec \<and> score_defaults x rec"
proof (cases x)
  case (PDict d)
  with assms obtain v1 v2 v3 where
    "map_of d ''status'' = Some v1" "map_of d ''recommended'' = Some v2"
    "map_of d ''score'' = Some v3"
    by (auto simp: has_keys_def score_required_def)
  with PDict show ?thesis
    by (simp add: score_result_def score_reads_def score_defaults_def)
qed (use assms in \<open>simp_all add: has_keys_def\<close>)

lemma comprehension_all_ok:
  assumes "\<And>x. x \<in> set xs \<Longrightarrow> \<exists>y. f x = Inr y \<and> P x y"
  shows "\<exists>ys. comprehension f xs = Inr ys \<and> length ys = length xs
            \<and> (\<forall>i<length xs. P (xs ! i) (ys ! i))"
  using assms
proof (induction xs)
  case Nil
  then show ?case by simp
next
  case (Cons x xs)
  from Cons.prems[of x] obtain y where y: "f x = Inr y" "P x y" by auto
  from Cons.IH Cons.prems obtain ys where
    ys: "comprehension f xs = Inr ys" "length ys = length xs" "\<forall>i<length xs. P (xs ! i) (ys ! i)"
    by auto
  have "\<forall>i<length (x # xs). P ((x # xs) ! i) ((y # ys) ! i)"
  proof (intro allI impI)
    fix i assume "i < length (x # xs)"
    then show "P ((x # xs) ! i) ((y # ys) ! i)"
      using y(2) ys(3) by (cases i) auto
  qed
  with y ys show ?case by simp
qed


lemma ebind_eq_Inr: "ebind a f = Inr r \<longleftrightarrow> (\<exists>x. a = Inr x \<and> f x = Inr r)"
  by (cases a) auto

lemma ebind_eq_Inl: "ebind a f = Inl e \<longleftrightarrow> a = Inl e \<or> (\<exists>x. a = Inr x \<and> f x = Inl e)"
  by (cases a) auto

lemma getitem_eq_Inr: "py_getitem (PDict d) k = Inr v \<longleftrightarrow> map_of d k = Some v"
  by (cases "map_of d k") auto

lemma getitem_eq_Inl: "py_getitem (PDict d) k = Inl e \<longleftrightarrow> map_of d k = None \<and> e = KeyError k"
  by (cases "map_of d k") auto

lemma get_dict_not_Inl: "py_get (PDict d) k dflt \<noteq> Inl e"
  by simp

lemma score_result_error:
  "score_result (PDict d) = Inl e \<Longrightarrow> e \<in> KeyError ` set score_required"
  unfolding score_result_def score_required_def
  by (auto simp: ebind_eq_Inl getitem_eq_Inl simp del: py_getitem.simps py_get.simps
      dest: get_dict_not_Inl[THEN notE])

lemma score_result_has_keys:
  "score_result (PDict d) = Inr rec \<Longrightarrow> has_keys score_required (PDict d)"
  unfolding score_result_def score_required_def
  by (auto simp: ebind_eq_Inr getitem_eq_Inr has_keys_def simp del: py_getitem.simps py_get.simps)

lemma capture_candidate_error:
  "capture_candidate (PDict d) = Inl e \<Longrightarrow> e \<in> KeyError ` set candidate_required"
  unfolding capture_candidate_def candidate_required_def
  by (auto simp: ebind_eq_Inl getitem_eq_Inl simp del: py_getitem.simps py_get.simps
      dest: get_dict_not_Inl[THEN notE])

lemma capture_candidate_has_keys:
  "capture_candidate (PDict d) = Inr rec \<Longrightarrow> has_keys candidate_required (PDict d)"
  unfolding capture_candidate_def candidate_required_def
  by (auto simp: ebind_eq_Inr getitem_eq_Inr has_keys_def simp del: py_getitem.simps py_get.simps)

lemma lacks_not_has: "lacks_a_key ks x \<Longrightarrow> \<not> has_keys ks x"
  by (cases x) (auto simp: lacks_a_key_def has_keys_def list_ex_iff list_all_iff)

lemma lacks_is_object: "lacks_a_key ks x \<Longrightarrow> is_object x"
  by (cases x) (simp_all add: lacks_a_key_def is_object_def)

lemma score_result_object:
  assumes "is_object x"
  shows "(\<exists>rec. score_result x = Inr rec) \<or> score_result x \<in> Inl ` KeyError ` set score_required"
proof -
  from assms obtain d where x: "x = PDict d" by (cases x) (simp_all add: is_object_def)
  show ?thesis
  proof (cases "score_result x")
    case (Inl e)
    with score_result_error[of d e] x show ?thesis by simp
  next
    case (Inr rec)
    then show ?thesis by simp
  qed
qed

lemma score_result_lacks:
  assumes "lacks_a_key score_required x"
  shows "score_result x \<in> Inl ` KeyError ` set score_required"
proof -
  from assms obtain d where x: "x = PDict d"
    by (cases x) (simp_all add: lacks_a_key_def)
  from lacks_not_has[OF assms] score_result_has_keys[of d] x
  have "\<not> (\<exists>rec. score_result x = Inr rec)" by auto
  with score_result_object[OF lacks_is_object[OF assms]] show ?thesis by blast
qed

lemma capture_candidate_object:
  assumes "is_object x"
  shows "(\<exists>rec. capture_candidate x = Inr rec)
       \<or> capture_candidate x \<in> Inl ` KeyError ` set candidate_required"
proof -
  from assms obtain d where x: "x = PDict d" by (cases x) (simp_all add: is_object_def)
  show ?thesis
  proof (cases "capture_candidate x")
    case (Inl e)
    with capture_candidate_error[of d e] x show ?thesis by simp
  next
    case (Inr rec)
    then show ?thesis by simp
  qed
qed

lemma capture_candidate_lacks:
  assumes "lacks_a_key candidate_required x"
  shows "capture_candidate x \<in> Inl ` KeyError ` set candidate_required"
proof -
  from assms obtain d where x: "x = PDict d"
    by (cases x) (simp_all add: lacks_a_key_def)
  from lacks_not_has[OF assms] capture_candidate_has_keys[of d] x
  have "\<not> (\<exists>rec. capture_candidate x = Inr rec)" by auto
  with capture_candidate_object[OF lacks_is_object[OF assms]] show ?thesis by blast
qed

lemma comprehension_raises:
  assumes "\<And>x. x \<in> set xs \<Longrightarrow> (\<exists>y. f x = Inr y) \<or> f x \<in> Inl ` E"
    and "\<exists>x\<in>set xs. f x \<in> Inl ` E"
  shows "comprehension f xs \<in> Inl ` E"
  using assms
proof (induction xs)
  case Nil
  then show ?case by simp
next
  case (Cons x xs)
  show ?case
  proof (cases "f x")
    case (Inl e)
    with Cons.prems(1)[of x] show ?thesis by auto
  next
    case (Inr y)
    with Cons.prems(2) have "\<exists>x\<in>set xs. f x \<in> Inl ` E" by auto
    with Cons.IH Cons.prems(1) have "comprehension f xs \<in> Inl ` E" by auto
    with Inr show ?thesis by auto
  qed
qed


lemma comprehension_score_ok:
  assumes "list_all (has_keys score_required) rs"
  shows "\<exists>ys. comprehension score_result rs = Inr ys \<and> length ys = length rs
            \<and> (\<forall>i<length rs. score_reads (rs ! i) (ys ! i) \<and> score_defaults (rs ! i) (ys ! i))"
  using assms
  by (intro comprehension_all_ok[where P = "\<lambda>x y. score_reads x y \<and> score_defaults x y"])
     (auto simp: list_all_iff dest: score_result_ok)

lemma comprehension_candidate_ok:
  assumes "list_all (has_keys candidate_required) its"
  shows "\<exists>ys. comprehension capture_candidate its = Inr ys \<and> length ys = length its
            \<and> (\<forall>i<length its. candidate_reads (its ! i) (ys ! i)
                  \<and> candidate_defaults (its ! i) (ys ! i))"
  using assms
  by (intro comprehension_all_ok[where P = "\<lambda>x y. candidate_reads x y \<and> candidate_defaults x y"])
     (auto simp: list_all_iff dest: capture_candidate_ok)

lemma comprehension_score_raises:
  assumes "list_all is_object rs" and "list_ex (lacks_a_key score_required) rs"
  shows "\<exists>k\<in>set score_required. comprehension score_result rs = Inl (KeyError k)"
proof -
  have "comprehension score_result rs \<in> Inl ` KeyError ` set score_required"
    using assms
    by (intro comprehension_raises)
       (auto simp: list_all_iff list_ex_iff intro: score_result_lacks dest: score_result_object)
  then show ?thesis by auto
qed

lemma comprehension_candidate_raises:
  assumes "list_all is_object its" and "list_ex (lacks_a_key candidate_required) its"
  shows "\<exists>k\<in>set candidate_required. comprehension capture_candidate its = Inl (KeyError k)"
proof -
  have "comprehension capture_candidate its \<in> Inl ` KeyError ` set candidate_required"
    using assms
    by (intro comprehension_raises)
       (auto simp: list_all_iff list_ex_iff intro: capture_candidate_lacks
          dest: capture_candidate_object)
  then show ?thesis by auto
qed

lemma lacks_keys_get: "lacks_keys ks x \<Longrightarrow> k \<in> set ks \<Longrightarrow> py_get x k dflt = Inr dflt"
  by (cases x) (auto simp: lacks_keys_def list_all_iff)

lemma two_elements: "length xs = 2 \<Longrightarrow> xs = [xs ! 0, xs ! 1]"
  by (cases xs; cases "tl xs") auto

section \<open>Decoding capture candidates\<close>

text \<open>
  C6: when the successful payload of \<^verbatim>\<open>list_capture_candidates\<close> has an \<^verbatim>\<open>items\<close> array
  of N objects that all have the required keys and lack the keys \<^verbatim>\<open>reasons\<close>,
  \<^verbatim>\<open>metadata\<close> and \<^verbatim>\<open>autoAccepted\<close>, the call returns exactly N records, the i-th
  holding the required values of the i-th object, each with reasons = [], metadata = {}
  and auto_accepted = false.
\<close>

theorem candidates_decoded_with_defaults:
  assumes "\<And>rq. transport (session c) rq = Inr r" and "status_code r < 400"
    and "json_body r = Some body" and "unwrap body = Inr (PDict p)"
    and "map_of p ''items'' = Some (PList items)"
    and "list_all (has_keys candidate_required) items"
    and "list_all (lacks_keys [''reasons'', ''metadata'', ''autoAccepted'']) items"
  shows "\<exists>recs. fst (list_capture_candidates c status limit sid) = Inr recs
           \<and> length recs = length items
           \<and> (\<forall>i<length items.
                 candidate_reads (items ! i) (recs ! i)
               \<and> cand_reasons (recs ! i) = PList []
               \<and> cand_metadata (recs ! i) = PDict []
               \<and> cand_auto_accepted (recs ! i) = PBool False)"
proof -
  from comprehension_candidate_ok[OF assms(6)] obtain recs where
    recs: "comprehension capture_candidate items = Inr recs" "length recs = length items"
      "\<forall>i<length items. candidate_reads (items ! i) (recs ! i)
          \<and> candidate_defaults (items ! i) (recs ! i)"
    by blast
  have res: "fst (list_capture_candidates c status limit sid) = Inr recs"
    by (simp add: fst_list_capture_candidates[OF assms(1-4)] assms(5) recs(1))
  have "candidate_reads (items ! i) (recs ! i)
      \<and> cand_reasons (recs ! i) = PList []
      \<and> cand_metadata (recs ! i) = PDict []
      \<and> cand_auto_accepted (recs ! i) = PBool False" if "i < length items" for i
  proof -
    from that assms(7) have lk: "lacks_keys [''reasons'', ''metadata'', ''autoAccepted''] (items ! i)"
      by (simp add: list_all_length)
    from recs(3) that have rd: "candidate_reads (items ! i) (recs ! i)"
      and df: "candidate_defaults (items ! i) (recs ! i)" by auto
    from df lacks_keys_get[OF lk, of "''reasons''"] lacks_keys_get[OF lk, of "''metadata''"]
      lacks_keys_get[OF lk, of "''autoAccepted''"]
    show ?thesis using rd by (simp add: candidate_defaults_def)
  qed
  with res recs(2) show ?thesis by blast
qed


theorem candidates_decoded_with_defaults_witness:
  "map cand_id (projr (fst (list_capture_candidates
      (demo_client (ok_response (PDict [(''items'', PList [demo_candidate ''c1'', demo_candidate ''c2''])])))
      (PStr ''pending'') (PInt 50) PNone))) = [PStr ''c1'', PStr ''c2'']
   \<and> map cand_reasons (projr (fst (list_capture_candidates
      (demo_client (ok_response (PDict [(''items'', PList [demo_candidate ''c1'', demo_candidate ''c2''])])))
      (PStr ''pending'') (PInt 50) PNone))) = [PList [], PList []]
   \<and> map cand_metadata (projr (fst (list_capture_candidates
      (demo_client (ok_response (PDict [(''items'', PList [demo_candidate ''c1'', demo_candidate ''c2''])])))
      (PStr ''pending'') (PInt 50) PNone))) = [PDict [], PDict []]
   \<and> map cand_auto_accepted (projr (fst (list_capture_candidates
      (demo_client (ok_response (PDict [(''items'', PList [demo_candidate ''c1'', demo_candidate ''c2''])])))
      (PStr ''pending'') (PInt 50) PNone))) = [PBool False, PBool False]"
proof -
  let ?items = "[demo_candidate ''c1'', demo_candidate ''c2'']"
  let ?b = "PDict [(''items'', PList ?items)]"
  let ?call = "fst (list_capture_candidates (demo_client (ok_response ?b))
                 (PStr ''pending'') (PInt 50) PNone)"
  have t: "transport (session (demo_client (ok_response ?b))) rq = Inr (ok_response ?b)" for rq
    by (simp add: demo_client_simps canned_simps)
  have u: "unwrap ?b = Inr ?b" by (simp add: unwrap_def)
  have h: "list_all (has_keys candidate_required) ?items"
    by (simp add: has_keys_def candidate_required_def demo_candidate_def)
  have l: "list_all (lacks_keys [''reasons'', ''metadata'', ''autoAccepted'']) ?items"
    by (simp add: lacks_keys_def demo_candidate_def)
  from candidates_decoded_with_defaults[of "demo_client (ok_response ?b)" "ok_response ?b" ?b
      "[(''items'', PList ?items)]" ?items "PStr ''pending''" "PInt 50" PNone, OF t _ _ u _ h l]
  obtain recs where recs: "?call = Inr recs" "length recs = 2"
    and each: "\<forall>i<2. candidate_reads (?items ! i) (recs ! i)
               \<and> cand_reasons (recs ! i) = PList []
               \<and> cand_metadata (recs ! i) = PDict []
               \<and> cand_auto_accepted (recs ! i) = PBool False"
    by (auto simp: ok_response_simps)
  from each have "candidate_reads (demo_candidate ''c1'') (recs ! 0)
      \<and> cand_reasons (recs ! 0) = PList [] \<and> cand_metadata (recs ! 0) = PDict []
      \<and> cand_auto_accepted (recs ! 0) = PBool False"
    and "candidate_reads (demo_candidate ''c2'') (recs ! 1)
      \<and> cand_reasons (recs ! 1) = PList [] \<and> cand_metadata (recs ! 1) = PDict []
      \<and> cand_auto_accepted (recs ! 1) = PBool False"
    by (auto dest: spec[of _ 0] spec[of _ 1])
  then have "map cand_id [recs ! 0, recs ! 1] = [PStr ''c1'', PStr ''c2'']"
    and "map cand_reasons [recs ! 0, recs ! 1] = [PList [], PList []]"
    and "map cand_metadata [recs ! 0, recs ! 1] = [PDict [], PDict []]"
    and "map cand_auto_accepted [recs ! 0, recs ! 1] = [PBool False, PBool False]"
    by (simp_all add: candidate_reads_def demo_candidate_def)
  with two_elements[OF recs(2)] recs(1) show ?thesis by simp
qed

section \<open>Required and optional keys\<close>

lemma one_element: "length xs = Suc 0 \<Longrightarrow> xs = [xs ! 0]"
  by (cases xs) auto

text \<open>
  C7: on a successful payload whose \<^verbatim>\<open>results\<close> (for \<^verbatim>\<open>score_capture\<close>) or \<^verbatim>\<open>items\<close>
  (for \<^verbatim>\<open>list_capture_candidates\<close>) is a list of objects, if some object lacks a key the
  decoder reads by subscript (status, recommended, score; id, role, content, status,
  score, threshold, recommended), the whole call fails with the decode error (a KeyError
  naming such a key) and returns no records. If every object has those keys, the call
  returns one record per object, and each key read with a default (eventId, candidateId,
  reasons, memoryId; category, reasons, metadata, memoryId, autoAccepted,
  autoDecisionReason, createdAt, updatedAt) contributes the object's value when present
  and its default (null, empty list, empty mapping, false or empty string) when absent.
\<close>

theorem required_keys_raise_optional_keys_default:
  assumes "\<And>rq. transport (session c) rq = Inr r" and "status_code r < 400"
    and "json_body r = Some body" and "unwrap body = Inr (PDict p)"
  shows "(map_of p ''results'' = Some (PList rs) \<and> list_all is_object rs
            \<and> list_ex (lacks_a_key score_required) rs \<longrightarrow>
          (\<exists>k\<in>set score_required.
             fst (score_capture c (PList evs) threshold sid) = Inl (KeyError k)))
       \<and> (map_of p ''items'' = Some (PList its) \<and> list_all is_object its
            \<and> list_ex (lacks_a_key candidate_required) its \<longrightarrow>
          (\<exists>k\<in>set candidate_required.
             fst (list_capture_candidates c status limit sid) = Inl (KeyError k)))
       \<and> (map_of p ''results'' = Some (PList rs) \<and> list_all (has_keys score_required) rs \<longrightarrow>
          (\<exists>resp. fst (score_capture c (PList evs) threshold sid) = Inr resp
             \<and> length (rsp_results resp) = length rs
             \<and> (\<forall>i<length rs. score_reads (rs ! i) (rsp_results resp ! i)
                   \<and> score_defaults (rs ! i) (rsp_results resp ! i))))
       \<and> (map_of p ''items'' = Some (PList its) \<and> list_all (has_keys candidate_required) its \<longrightarrow>
          (\<exists>recs. fst (list_capture_candidates c status limit sid) = Inr recs
             \<and> length recs = length its
             \<and> (\<forall>i<length its. candidate_reads (its ! i) (recs ! i)
                   \<and> candidate_defaults (its ! i) (recs ! i))))"
proof (intro conjI impI)
  assume "map_of p ''results'' = Some (PList rs) \<and> list_all is_object rs
            \<and> list_ex (lacks_a_key score_required) rs"
  then have rs: "map_of p ''results'' = Some (PList rs)"
    and bad: "list_all is_object rs" "list_ex (lacks_a_key score_required) rs" by auto
  from comprehension_score_raises[OF bad] obtain k where
    "k \<in> set score_required" "comprehension score_result rs = Inl (KeyError k)" by blast
  then show "\<exists>k\<in>set score_required.
             fst (score_capture c (PList evs) threshold sid) = Inl (KeyError k)"
    by (auto simp: fst_score_capture[OF assms] rs)
next
  assume "map_of p ''items'' = Some (PList its) \<and> list_all is_object its
            \<and> list_ex (lacks_a_key candidate_required) its"
  then have its: "map_of p ''items'' = Some (PList its)"
    and bad: "list_all is_object its" "list_ex (lacks_a_key candidate_required) its" by auto
  from comprehension_candidate_raises[OF bad] obtain k where
    "k \<in> set candidate_required" "comprehension capture_candidate its = Inl (KeyError k)" by blast
  then show "\<exists>k\<in>set candidate_required.
             fst (list_capture_candidates c status limit sid) = Inl (KeyError k)"
    by (auto simp: fst_list_capture_candidates[OF assms] its)
next
  assume "map_of p ''results'' = Some (PList rs) \<and> list_all (has_keys score_required) rs"
  then have rs: "map_of p ''results'' = Some (PList rs)"
    and good: "list_all (has_keys score_required) rs" by auto
  from comprehension_score_ok[OF good] obtain ys where
    "comprehension score_result rs = Inr ys" "length ys = length rs"
    "\<forall>i<length rs. score_reads (rs ! i) (ys ! i) \<and> score_defaults (rs ! i) (ys ! i)"
    by blast
  then show "\<exists>resp. fst (score_capture c (PList evs) threshold sid) = Inr resp
             \<and> length (rsp_results resp) = length rs
             \<and> (\<forall>i<length rs. score_reads (rs ! i) (rsp_results resp ! i)
                   \<and> score_defaults (rs ! i) (rsp_results resp ! i))"
    by (simp add: fst_score_capture[OF assms] rs)
next
  assume "map_of p ''items'' = Some (PList its) \<and> list_all (has_keys candidate_required) its"
  then have its: "map_of p ''items'' = Some (PList its)"
    and good: "list_all (has_keys candidate_required) its" by auto
  from comprehension_candidate_ok[OF good] obtain ys where
    "comprehension capture_candidate its = Inr ys" "length ys = length its"
    "\<forall>i<length its. candidate_reads (its ! i) (ys ! i) \<and> candidate_defaults (its ! i) (ys ! i)"
    by blast
  then show "\<exists>recs. fst (list_capture_candidates c status limit sid) = Inr recs
             \<and> length recs = length its
             \<and> (\<forall>i<length its. candidate_reads (its ! i) (recs ! i)
                   \<and> candidate_defaults (its ! i) (recs ! i))"
    by (simp add: fst_list_capture_candidates[OF assms] its)
qed


theorem required_keys_raise_optional_keys_default_witness:
  "(\<exists>k\<in>set score_required.
      fst (score_capture (demo_client (ok_response (PDict payload_a))) (PList []) PNone PNone)
        = Inl (KeyError k))
   \<and> (\<exists>recs. fst (list_capture_candidates (demo_client (ok_response (PDict payload_a)))
                    (PStr ''pending'') (PInt 50) PNone) = Inr recs
         \<and> map cand_category recs = [PStr []]
         \<and> map cand_reasons recs = [PList []]
         \<and> map cand_metadata recs = [PDict []]
         \<and> map cand_memory_id recs = [PNone]
         \<and> map cand_auto_accepted recs = [PBool False]
         \<and> map cand_auto_decision_reason recs = [PNone]
         \<and> map cand_created_at recs = [PStr []]
         \<and> map cand_updated_at recs = [PStr []])
   \<and> (\<exists>k\<in>set candidate_required.
      fst (list_capture_candidates (demo_client (ok_response (PDict payload_b)))
            (PStr ''pending'') (PInt 50) PNone) = Inl (KeyError k))
   \<and> (\<exists>resp. fst (score_capture (demo_client (ok_response (PDict payload_b))) (PList []) PNone PNone)
                 = Inr resp
         \<and> map csr_event_id (rsp_results resp) = [PNone]
         \<and> map csr_candidate_id (rsp_results resp) = [PNone]
         \<and> map csr_reasons (rsp_results resp) = [PList []]
         \<and> map csr_memory_id (rsp_results resp) = [PNone])"
proof -
  let ?bad = "PDict [(''status'', PStr ''skipped''), (''recommended'', PBool False)]"
  have t: "transport (session (demo_client x)) rq = Inr x" for x rq
    by (simp add: demo_client_simps canned_simps)
  have ua: "unwrap (PDict payload_a) = Inr (PDict payload_a)"
    and ub: "unwrap (PDict payload_b) = Inr (PDict payload_b)"
    by (simp_all add: unwrap_def payload_a_def payload_b_def)
  note a = required_keys_raise_optional_keys_default[of
      "demo_client (ok_response (PDict payload_a))" "ok_response (PDict payload_a)"
      "PDict payload_a" payload_a "[demo_result ''stored'', ?bad]" "[]" PNone PNone
      "[demo_candidate ''c1'']" "PStr ''pending''" "PInt 50", OF t _ _ ua]
  note b = required_keys_raise_optional_keys_default[of
      "demo_client (ok_response (PDict payload_b))" "ok_response (PDict payload_b)"
      "PDict payload_b" payload_b "[demo_result ''stored'']" "[]" PNone PNone
      "[demo_candidate ''c1'', PDict [(''id'', PStr ''c2'')]]" "PStr ''pending''" "PInt 50",
      OF t _ _ ub]
  have a1: "\<exists>k\<in>set score_required.
      fst (score_capture (demo_client (ok_response (PDict payload_a))) (PList []) PNone PNone)
        = Inl (KeyError k)"
    using a by (simp add: ok_response_simps payload_a_def is_object_def lacks_a_key_def
        score_required_def demo_result_def)
  from a obtain recs where recs:
    "fst (list_capture_candidates (demo_client (ok_response (PDict payload_a)))
            (PStr ''pending'') (PInt 50) PNone) = Inr recs"
    "length recs = Suc 0"
    "candidate_defaults (demo_candidate ''c1'') (recs ! 0)"
    by (auto simp: ok_response_simps payload_a_def has_keys_def candidate_required_def
        demo_candidate_def)
  from recs(3) have
    "map cand_category [recs ! 0] = [PStr []] \<and> map cand_reasons [recs ! 0] = [PList []]
     \<and> map cand_metadata [recs ! 0] = [PDict []] \<and> map cand_memory_id [recs ! 0] = [PNone]
     \<and> map cand_auto_accepted [recs ! 0] = [PBool False]
     \<and> map cand_auto_decision_reason [recs ! 0] = [PNone]
     \<and> map cand_created_at [recs ! 0] = [PStr []] \<and> map cand_updated_at [recs ! 0] = [PStr []]"
    by (auto simp: candidate_defaults_def demo_candidate_def)
  with one_element[OF recs(2)] recs(1) have a2:
    "\<exists>recs. fst (list_capture_candidates (demo_client (ok_response (PDict payload_a)))
                    (PStr ''pending'') (PInt 50) PNone) = Inr recs
         \<and> map cand_category recs = [PStr []]
         \<and> map cand_reasons recs = [PList []]
         \<and> map cand_metadata recs = [PDict []]
         \<and> map cand_memory_id recs = [PNone]
         \<and> map cand_auto_accepted recs = [PBool False]
         \<and> map cand_auto_decision_reason recs = [PNone]
         \<and> map cand_created_at recs = [PStr []]
         \<and> map cand_updated_at recs = [PStr []]"
    by metis
  have b1: "\<exists>k\<in>set candidate_required.
      fst (list_capture_candidates (demo_client (ok_response (PDict payload_b)))
            (PStr ''pending'') (PInt 50) PNone) = Inl (KeyError k)"
    using b by (simp add: ok_response_simps payload_b_def is_object_def lacks_a_key_def
        candidate_required_def demo_candidate_def)
  from b obtain resp where resp:
    "fst (score_capture (demo_client (ok_response (PDict payload_b))) (PList []) PNone PNone)
       = Inr resp"
    "length (rsp_results resp) = Suc 0"
    "score_defaults (demo_result ''stored'') (rsp_results resp ! 0)"
    by (auto simp: ok_response_simps payload_b_def has_keys_def score_required_def
        demo_result_def)
  from resp(3) have
    "map csr_event_id [rsp_results resp ! 0] = [PNone]
     \<and> map csr_candidate_id [rsp_results resp ! 0] = [PNone]
     \<and> map csr_reasons [rsp_results resp ! 0] = [PList []]
     \<and> map csr_memory_id [rsp_results resp ! 0] = [PNone]"
    by (auto simp: score_defaults_def demo_result_def)
  with one_element[OF resp(2)] resp(1) have b2:
    "\<exists>resp. fst (score_capture (demo_client (ok_response (PDict payload_b))) (PList []) PNone PNone)
                 = Inr resp
         \<and> map csr_event_id (rsp_results resp) = [PNone]
         \<and> map csr_candidate_id (rsp_results resp) = [PNone]
         \<and> map csr_reasons (rsp_results resp) = [PList []]
         \<and> map csr_memory_id (rsp_results resp) = [PNone]"
    by metis
  from a1 a2 b1 b2 show ?thesis by (intro conjI)
qed

section \<open>Extra fields in request bodies\<close>










text \<open>
  The dict display itself stores its items left to right, so had a repeated key reached
  it, the later (extra) value would be the one kept.
\<close>

lemma dict_display_later_value:
  "dict_display [(''content'', PStr ''hello''), (''pinned'', PBool True), (''content'', PStr ''other'')] =
     [(''content'', PStr ''other''), (''pinned'', PBool True)]"
  by (simp add: dict_display_def)

text \<open>A keyword \<^verbatim>\<open>subject_id\<close> of \<^verbatim>\<open>search\<close> goes to the subject header, not to the body.\<close>

lemma search_call_subject_keyword:
  "map rq_headers (new_requests (demo_client (ok_response PNone))
      (snd (search_call (demo_client (ok_response PNone))
         [(''query'', PStr ''tea''), (''subject_id'', PStr ''bob'')]))) =
     [headers (demo_client (ok_response PNone)) (PStr ''bob'')]"
  by (simp add: search_call_def bind_keywords_def search_def new_requests_request)

end
